theory Spec2Isabelle
  imports Main "HOL-Library.Word"
begin

section \<open>JavaScript strings\<close>

text \<open>
  A JavaScript string is a sequence of UTF-16 code units. \<open>js\<close> turns an ASCII literal
  of the source into its code units.
\<close>

type_synonym jschar = "16 word"
type_synonym jsstring = "jschar list"

definition js :: "string \<Rightarrow> jsstring" where
  "js s = map (\<lambda>c. of_char c) s"

text \<open>
  The code units that \<open>String.prototype.trim\<close> removes: ECMAScript's WhiteSpace
  (TAB, VT, FF, ZWNBSP and the Unicode space separators) and LineTerminator
  (LF, CR, LS, PS). All of them lie in the Basic Multilingual Plane, so the test is on
  single code units.
\<close>

definition isWhiteSpace :: "jschar \<Rightarrow> bool" where
  "isWhiteSpace c \<longleftrightarrow>
     c = 0x0009 \<or> c = 0x000A \<or> c = 0x000B \<or> c = 0x000C \<or> c = 0x000D \<or>
     c = 0x0020 \<or> c = 0x00A0 \<or> c = 0x1680 \<or> (0x2000 \<le> c \<and> c \<le> 0x200A) \<or>
     c = 0x2028 \<or> c = 0x2029 \<or> c = 0x202F \<or> c = 0x205F \<or> c = 0x3000 \<or>
     c = 0xFEFF"

definition trim :: "jsstring \<Rightarrow> jsstring" where
  "trim s = rev (dropWhile isWhiteSpace (rev (dropWhile isWhiteSpace s)))"

definition startsWith :: "jsstring \<Rightarrow> jsstring \<Rightarrow> bool" where
  "startsWith s p \<longleftrightarrow> take (length p) s = p"

definition substring :: "jsstring \<Rightarrow> nat \<Rightarrow> jsstring" where
  "substring s start = drop start s"

text \<open>Number-to-string conversion of a length, as a template literal does it.\<close>

function decimal :: "nat \<Rightarrow> jsstring" where
  "decimal n =
     (if n < 10 then [of_nat (48 + n)]
      else decimal (n div 10) @ [of_nat (48 + n mod 10)])"
  by pat_completeness auto
termination
  by (relation "measure (\<lambda>n. n)") auto

declare decimal.simps [simp del]

text \<open>Reading an array out of range gives \<open>undefined\<close>.\<close>

definition at :: "'a list \<Rightarrow> nat \<Rightarrow> 'a option" where
  "at xs i = (if i < length xs then Some (xs ! i) else None)"

section \<open>Data of the task pane\<close>

text \<open>
  A paragraph as the first synchronisation loads it. The proxy object of a paragraph
  is identified by its position in \<open>paragraphs.items\<close>.
\<close>

record Paragraph =
  styleBuiltIn :: jsstring
  p_text :: jsstring

text \<open>The entries of \<open>allHeadings\<close>: \<open>{ paragraph: p, text: p.text, index: i }\<close>.\<close>

record heading =
  h_paragraph :: nat
  h_text :: jsstring
  index :: nat

text \<open>
  Ranges are built by \<open>paragraph.getRange(loc)\<close>, \<open>body.getRange(loc)\<close> and
  \<open>range.expandTo(range)\<close>.
\<close>

datatype location = Start | End

datatype Range =
    ParagraphRange nat location
  | BodyRange location
  | ExpandTo Range Range

text \<open>
  \<open>promptData\<close> objects are shared between \<open>uiItemsToCreate\<close> and
  \<open>rangesToLoad\<close> and mutated after the second synchronisation, so they live in a
  store and are referred to by address (their position in the store).
\<close>

record PromptData =
  buttonText :: jsstring
  textToCopy :: jsstring
  p_range :: Range

datatype item_type = TLabel | TButton

record UIItem =
  item_type :: item_type
  item_text :: jsstring
  data :: "nat option"

datatype element =
    H3 jsstring jsstring
  | ButtonEl jsstring jsstring UIItem

datatype js_error = JsError jsstring

datatype console_entry =
    ConsoleLog jsstring
  | ConsoleWarn jsstring
  | ConsoleError jsstring js_error

text \<open>One entry per \<open>await context.sync()\<close>, with the batch it carries.\<close>

datatype sync_request =
    FetchParagraphs
  | ResolveRanges "Range list"

text \<open>
  Everything the two functions read and write: the two DOM nodes, the console, the
  calls made to the document service and to the clipboard, and the object store.
\<close>

record world =
  statusMessage :: jsstring
  container :: "element list"
  console :: "console_entry list"
  syncs :: "sync_request list"
  clipboardWrites :: "jsstring list"
  heap :: "PromptData list"

text \<open>
  The document service: what the first synchronisation loads, and what the second one
  loads for the batch of ranges queued with \<open>load("text")\<close>. Either may throw.
\<close>

record doc_service =
  sync_paragraphs :: "js_error + Paragraph list"
  sync_ranges :: "Range list \<Rightarrow> js_error + (Range \<Rightarrow> jsstring)"

section \<open>scanAndBuildUI\<close>

subsection \<open>Step 2: find all headings\<close>

function findHeadings :: "Paragraph list \<Rightarrow> nat \<Rightarrow> heading list \<Rightarrow> heading list" where
  "findHeadings items i allHeadings =
     (if i < length items then
        (if startsWith (styleBuiltIn (items ! i)) (js ''Heading'') then
           findHeadings items (i + 1)
             (allHeadings @ [\<lparr>h_paragraph = i, h_text = p_text (items ! i), index = i\<rparr>])
         else findHeadings items (i + 1) allHeadings)
      else allHeadings)"
  by pat_completeness auto
termination
  by (relation "measure (\<lambda>(items, i, allHeadings). length items - i)") auto

declare findHeadings.simps [simp del]

subsection \<open>Step 3: prepare the items and queue the ranges\<close>

record scan_locals =
  uiItemsToCreate :: "UIItem list"
  rangesToLoad :: "nat list"
  pending :: "Range list"
  store :: "PromptData list"

definition contentRange :: "heading list \<Rightarrow> nat \<Rightarrow> Range" where
  "contentRange allHeadings i =
     (let startRange = ParagraphRange (h_paragraph (allHeadings ! i)) End;
          endRange = (case at allHeadings (i + 1) of
                        Some nextHeading \<Rightarrow> ParagraphRange (h_paragraph nextHeading) Start
                      | None \<Rightarrow> BodyRange End)
      in ExpandTo startRange endRange)"

definition pushButton :: "heading list \<Rightarrow> nat \<Rightarrow> scan_locals \<Rightarrow> scan_locals" where
  "pushButton allHeadings i s =
     (let headingText = trim (h_text (allHeadings ! i));
          promptData = \<lparr>buttonText = trim (substring headingText 1),
                         textToCopy = [],
                         p_range = contentRange allHeadings i\<rparr>;
          ref = length (store s)
      in \<lparr>uiItemsToCreate = uiItemsToCreate s @
             [\<lparr>item_type = TButton, item_text = buttonText promptData, data = Some ref\<rparr>],
          rangesToLoad = rangesToLoad s @ [ref],
          pending = pending s @ [contentRange allHeadings i],
          store = store s @ [promptData]\<rparr>)"

definition pushLabel :: "heading list \<Rightarrow> nat \<Rightarrow> scan_locals \<Rightarrow> scan_locals" where
  "pushLabel allHeadings i s =
     (let headingText = trim (h_text (allHeadings ! i))
      in s\<lparr>uiItemsToCreate := uiItemsToCreate s @
             [\<lparr>item_type = TLabel, item_text = trim (substring headingText 1),
               data = None\<rparr>]\<rparr>)"

function prepare :: "heading list \<Rightarrow> nat \<Rightarrow> scan_locals \<Rightarrow> scan_locals" where
  "prepare allHeadings i s =
     (if i < length allHeadings then
        (if startsWith (trim (h_text (allHeadings ! i))) (js ''*'') then
           prepare allHeadings (i + 1) (pushButton allHeadings i s)
         else if startsWith (trim (h_text (allHeadings ! i))) (js ''_'') then
           prepare allHeadings (i + 1) (pushLabel allHeadings i s)
         else prepare allHeadings (i + 1) s)
      else s)"
  by pat_completeness auto
termination
  by (relation "measure (\<lambda>(allHeadings, i, s). length allHeadings - i)") auto

declare prepare.simps [simp del]

subsection \<open>Step 5: bind the loaded text\<close>

fun retrieve :: "(Range \<Rightarrow> jsstring) \<Rightarrow> nat list \<Rightarrow> PromptData list \<Rightarrow> PromptData list" where
  "retrieve loaded [] st = st"
| "retrieve loaded (prompt # rest) st =
     retrieve loaded rest
       (st[prompt := (st ! prompt)\<lparr>textToCopy := trim (loaded (p_range (st ! prompt)))\<rparr>])"

subsection \<open>Step 6: build the UI\<close>

definition renderItem :: "world \<Rightarrow> UIItem \<Rightarrow> world" where
  "renderItem w item =
     (case item_type item of
        TLabel \<Rightarrow> w\<lparr>container := container w @ [H3 (js ''ms-font-l'') (item_text item)]\<rparr>
      | TButton \<Rightarrow>
          w\<lparr>container := container w @ [ButtonEl (js ''ms-Button'') (item_text item) item]\<rparr>)"

subsection \<open>The body of Word.run and the handler around it\<close>

text \<open>
  The body passed to \<open>Word.run\<close> either returns the world it leaves, or throws at one of
  its two \<open>await context.sync()\<close>: then the result carries the error and the world at
  the moment of the throw. What \<open>Word.run\<close> itself does around the body belongs to the
  host library and is not part of the model.
\<close>

definition wordRun :: "doc_service \<Rightarrow> world \<Rightarrow> (js_error \<times> world) + world" where
  \<open>wordRun svc w =
     (let w1 = w\<lparr>syncs := syncs w @ [FetchParagraphs]\<rparr> in
      case sync_paragraphs svc of
        Inl e \<Rightarrow> Inl (e, w1)
      | Inr items \<Rightarrow>
          (let allHeadings = findHeadings items 0 [] in
           if length allHeadings = 0 then
             Inr (w1\<lparr>statusMessage := js ''No headings found in this document.''\<rparr>)
           else
             (let s = prepare allHeadings 0
                        \<lparr>uiItemsToCreate = [], rangesToLoad = [], pending = [],
                         store = heap w1\<rparr>;
                  w2 = w1\<lparr>syncs := syncs w1 @ [ResolveRanges (pending s)],
                          heap := store s\<rparr>
              in case sync_ranges svc (pending s) of
                   Inl e \<Rightarrow> Inl (e, w2)
                 | Inr loaded \<Rightarrow>
                     (let w3 = w2\<lparr>heap := retrieve loaded (rangesToLoad s) (store s)\<rparr>;
                          w4 = w3\<lparr>statusMessage := []\<rparr>
                      in if length (uiItemsToCreate s) = 0 then
                           Inr (w4\<lparr>statusMessage :=
                                  js ''No prompts found (use '*' or '_' in headings).''\<rparr>)
                         else Inr (foldl renderItem w4 (uiItemsToCreate s))))))\<close>

definition scanAndBuildUI :: "doc_service \<Rightarrow> world \<Rightarrow> world" where
  \<open>scanAndBuildUI svc w =
     (let w0 = w\<lparr>container := [], statusMessage := js ''Scanning document...''\<rparr> in
      case wordRun svc w0 of
        Inr w' \<Rightarrow> w'
      | Inl (error, w') \<Rightarrow>
          w'\<lparr>console := console w' @ [ConsoleError (js ''Error in scanAndBuildUI:'') error],
             statusMessage := js ''Error scanning document. See console.''\<rparr>)\<close>

section \<open>copyTextToClipboard\<close>

text \<open>
  \<open>writeText\<close> is the clipboard of the browser: \<open>None\<close> when the write succeeds, the
  error when the promise rejects. The parameters \<open>textToCopy\<close> and \<open>buttonText\<close> of
  the source are \<open>toCopy\<close> and \<open>btnText\<close> here, the source's names being the field
  selectors of \<open>PromptData\<close>.
\<close>

definition copyTextToClipboard ::
    "(jsstring \<Rightarrow> js_error option) \<Rightarrow> jsstring \<Rightarrow> jsstring \<Rightarrow> world \<Rightarrow> world" where
  \<open>copyTextToClipboard writeText toCopy btnText w =
     (let w1 = w\<lparr>console := console w @
                    [ConsoleLog (js ''Button clicked for: "'' @ btnText @ js ''"'')],
                 statusMessage := js ''Copying "'' @ btnText @ js ''"...''\<rparr> in
      if length toCopy = 0 then
        w1\<lparr>console := console w1 @
              [ConsoleWarn (js ''Text to copy is empty. (Was it empty in the doc?)'')],
           statusMessage := js ''Warning: No text found to copy.''\<rparr>
      else
        (let w2 = w1\<lparr>console := console w1 @
                       [ConsoleLog (js ''Text to copy (length '' @ decimal (length toCopy)
                                    @ js ''): "'' @ toCopy @ js ''"'')],
                     clipboardWrites := clipboardWrites w1 @ [toCopy]\<rparr> in
         case writeText toCopy of
           Some error \<Rightarrow>
             w2\<lparr>console := console w2 @ [ConsoleError (js ''Error copying to clipboard:'') error],
                statusMessage := js ''Error! See console for details.''\<rparr>
         | None \<Rightarrow>
             w2\<lparr>console := console w2 @ [ConsoleLog (js ''Successfully copied to clipboard.'')],
                statusMessage := js ''Copied "'' @ btnText @ js ''" to clipboard!''\<rparr>))\<close>

text \<open>
  The click handler of a button reads \<open>item.data\<close> when it runs. A heading element has
  no handler.
\<close>

fun click :: "(jsstring \<Rightarrow> js_error option) \<Rightarrow> element \<Rightarrow> world \<Rightarrow> world" where
  "click writeText (H3 cls txt) w = w"
| "click writeText (ButtonEl cls txt item) w =
     (case data item of
        None \<Rightarrow> w
      | Some r \<Rightarrow>
          copyTextToClipboard writeText (textToCopy (heap w ! r)) (buttonText (heap w ! r)) w)"

section \<open>Vocabulary of the properties\<close>

text \<open>
  The three tests of the source, by name: the style test of step 2 and the two marker
  tests of step 3. The second marker test sits in the \<open>else\<close> branch of the first; the
  two exclude each other, since the first code unit cannot be both \<open>*\<close> and \<open>_\<close>.
  \<open>displayText\<close> is \<open>headingText.substring(1).trim()\<close>.
\<close>

definition isHeading :: "Paragraph \<Rightarrow> bool" where
  "isHeading p \<longleftrightarrow> startsWith (styleBuiltIn p) (js ''Heading'')"

definition isButton :: "heading \<Rightarrow> bool" where
  "isButton h \<longleftrightarrow> startsWith (trim (h_text h)) (js ''*'')"

definition isLabel :: "heading \<Rightarrow> bool" where
  "isLabel h \<longleftrightarrow> startsWith (trim (h_text h)) (js ''_'')"

definition displayText :: "heading \<Rightarrow> jsstring" where
  "displayText h = trim (substring (trim (h_text h)) 1)"

text \<open>
  The positions, in \<open>allHeadings\<close> from \<open>i\<close> on, of the Button headings and of the headings
  with either marker; the number of Button headings in \<open>[i, k)\<close>.
\<close>

definition buttonsFrom :: "heading list \<Rightarrow> nat \<Rightarrow> nat list" where
  "buttonsFrom hs i = filter (\<lambda>k. isButton (hs ! k)) [i..<length hs]"

definition markedFrom :: "heading list \<Rightarrow> nat \<Rightarrow> nat list" where
  "markedFrom hs i = filter (\<lambda>k. isButton (hs ! k) \<or> isLabel (hs ! k)) [i..<length hs]"

text \<open>
  The \<open>promptData\<close> object and the item that step 3 builds for the heading at position
  \<open>k\<close>; \<open>ref\<close> is the address of the object.
\<close>

definition promptOf :: "heading list \<Rightarrow> nat \<Rightarrow> PromptData" where
  "promptOf hs k =
     \<lparr>buttonText = displayText (hs ! k), textToCopy = [], p_range = contentRange hs k\<rparr>"

definition buttonsBefore :: "heading list \<Rightarrow> nat \<Rightarrow> nat \<Rightarrow> nat" where
  "buttonsBefore hs i k = length (filter (\<lambda>j. isButton (hs ! j)) [i..<k])"

definition itemOf :: "heading list \<Rightarrow> nat \<Rightarrow> nat \<Rightarrow> UIItem" where
  "itemOf hs ref k =
     (if isButton (hs ! k)
      then \<lparr>item_type = TButton, item_text = displayText (hs ! k), data = Some ref\<rparr>
      else \<lparr>item_type = TLabel, item_text = displayText (hs ! k), data = None\<rparr>)"

text \<open>
  The directive that an element of the container stands for: a heading element is a Label
  with its text; a button is a Button with its text and with the text its click handler
  would copy, read through \<open>item.data\<close> in the store.
\<close>

datatype UIDirective = Label jsstring | Button jsstring jsstring

fun directiveOf :: "PromptData list \<Rightarrow> element \<Rightarrow> UIDirective option" where
  "directiveOf hp (H3 cls txt) = Some (Label txt)"
| "directiveOf hp (ButtonEl cls txt item) =
     (case data item of
        None \<Rightarrow> None
      | Some r \<Rightarrow> if r < length hp then Some (Button txt (textToCopy (hp ! r))) else None)"

text \<open>
  The element step 6 appends for an item, and for the heading at position \<open>k\<close> when the
  store held \<open>base\<close> objects before the scan; the object of a Button heading once step 5
  has bound the loaded text; the batch of ranges of a heading sequence; the directive of
  the heading at position \<open>k\<close>.
\<close>

definition elementOfItem :: "UIItem \<Rightarrow> element" where
  "elementOfItem item =
     (case item_type item of
        TLabel \<Rightarrow> H3 (js ''ms-font-l'') (item_text item)
      | TButton \<Rightarrow> ButtonEl (js ''ms-Button'') (item_text item) item)"

definition elementOf :: "heading list \<Rightarrow> nat \<Rightarrow> nat \<Rightarrow> element" where
  "elementOf hs base k = elementOfItem (itemOf hs (base + buttonsBefore hs 0 k) k)"

definition resolvedPrompt :: "heading list \<Rightarrow> (Range \<Rightarrow> jsstring) \<Rightarrow> nat \<Rightarrow> PromptData" where
  "resolvedPrompt hs loaded k =
     \<lparr>buttonText = displayText (hs ! k),
      textToCopy = trim (loaded (contentRange hs k)),
      p_range = contentRange hs k\<rparr>"

definition rangeBatch :: "heading list \<Rightarrow> Range list" where
  "rangeBatch hs = map (contentRange hs) (buttonsFrom hs 0)"

definition directiveFor :: "heading list \<Rightarrow> (Range \<Rightarrow> jsstring) \<Rightarrow> nat \<Rightarrow> UIDirective" where
  "directiveFor hs loaded k =
     (if isButton (hs ! k) then Button (displayText (hs ! k)) (trim (loaded (contentRange hs k)))
      else Label (displayText (hs ! k)))"

section \<open>Example documents\<close>

text \<open>
  A fresh task pane, and small documents with the service that serves them: one without
  headings, one whose only heading has no marker.
\<close>

definition emptyWorld :: world where
  "emptyWorld = \<lparr>statusMessage = [], container = [], console = [], syncs = [],
     clipboardWrites = [], heap = []\<rparr>"

definition plainItems :: "Paragraph list" where
  "plainItems = [\<lparr>styleBuiltIn = js ''Normal'', p_text = js ''Hello''\<rparr>]"

definition plainService :: doc_service where
  "plainService = \<lparr>sync_paragraphs = Inr plainItems, sync_ranges = (\<lambda>batch. Inr (\<lambda>r. []))\<rparr>"

definition unmarkedItems :: "Paragraph list" where
  "unmarkedItems = [\<lparr>styleBuiltIn = js ''Heading1'', p_text = js ''Intro''\<rparr>,
     \<lparr>styleBuiltIn = js ''Normal'', p_text = js ''*not a heading''\<rparr>]"

definition unmarkedService :: doc_service where
  "unmarkedService =
     \<lparr>sync_paragraphs = Inr unmarkedItems, sync_ranges = (\<lambda>batch. Inr (\<lambda>r. []))\<rparr>"

text \<open>The example of the specification: three marked headings after an unmarked one.\<close>

definition exampleItems :: "Paragraph list" where
  "exampleItems =
     [\<lparr>styleBuiltIn = js ''Heading1'', p_text = js ''Intro''\<rparr>,
      \<lparr>styleBuiltIn = js ''Heading2'', p_text = js ''*Explain''\<rparr>,
      \<lparr>styleBuiltIn = js ''Normal'', p_text = js ''body text A''\<rparr>,
      \<lparr>styleBuiltIn = js ''Heading2'', p_text = js ''_Section''\<rparr>,
      \<lparr>styleBuiltIn = js ''Heading2'', p_text = js ''*Summarize''\<rparr>,
      \<lparr>styleBuiltIn = js ''Normal'', p_text = js ''body text B''\<rparr>]"

definition exampleText :: "Range \<Rightarrow> jsstring" where
  "exampleText r =
     (if r = ExpandTo (ParagraphRange 1 End) (ParagraphRange 3 Start)
      then 0x000D # js ''body text A'' @ [0x000D]
      else if r = ExpandTo (ParagraphRange 4 End) (BodyRange End)
      then 0x000D # js ''body text B''
      else [])"

definition exampleService :: doc_service where
  "exampleService =
     \<lparr>sync_paragraphs = Inr exampleItems, sync_ranges = (\<lambda>batch. Inr exampleText)\<rparr>"

definition exampleHeadings :: "heading list" where
  "exampleHeadings =
     [\<lparr>h_paragraph = 0, h_text = js ''Intro'', index = 0\<rparr>,
      \<lparr>h_paragraph = 1, h_text = js ''*Explain'', index = 1\<rparr>,
      \<lparr>h_paragraph = 3, h_text = js ''_Section'', index = 3\<rparr>,
      \<lparr>h_paragraph = 4, h_text = js ''*Summarize'', index = 4\<rparr>]"

text \<open>A document with a Label heading only; a service that is down; one that drops after
  the paragraph fetch.\<close>

definition labelItems :: "Paragraph list" where
  "labelItems =
     [\<lparr>styleBuiltIn = js ''Heading1'', p_text = js ''_Section''\<rparr>,
      \<lparr>styleBuiltIn = js ''Normal'', p_text = js ''some text''\<rparr>]"

definition labelService :: doc_service where
  "labelService =
     \<lparr>sync_paragraphs = Inr labelItems, sync_ranges = (\<lambda>batch. Inr (\<lambda>r. []))\<rparr>"

definition offline :: js_error where
  "offline = JsError (js ''offline'')"

definition offlineService :: doc_service where
  "offlineService =
     \<lparr>sync_paragraphs = Inl offline, sync_ranges = (\<lambda>batch. Inl offline)\<rparr>"

definition droppedService :: doc_service where
  "droppedService =
     \<lparr>sync_paragraphs = Inr exampleItems, sync_ranges = (\<lambda>batch. Inl offline)\<rparr>"

text \<open>The document whose only heading has no marker, served by a service that drops after
  the paragraph fetch.\<close>

definition flakyService :: doc_service where
  "flakyService =
     \<lparr>sync_paragraphs = Inr unmarkedItems, sync_ranges = (\<lambda>batch. Inl offline)\<rparr>"

text \<open>A Button heading directly followed by the next heading, and a last Button heading.\<close>

definition emptyBodyItems :: "Paragraph list" where
  "emptyBodyItems =
     [\<lparr>styleBuiltIn = js ''Heading1'', p_text = js ''*Empty''\<rparr>,
      \<lparr>styleBuiltIn = js ''Heading1'', p_text = js ''*Next''\<rparr>,
      \<lparr>styleBuiltIn = js ''Normal'', p_text = js ''tail content''\<rparr>]"

definition emptyBodyText :: "Range \<Rightarrow> jsstring" where
  "emptyBodyText r =
     (if r = ExpandTo (ParagraphRange 1 End) (BodyRange End) then 0x000D # js ''tail content''
      else [])"

definition emptyBodyService :: doc_service where
  "emptyBodyService =
     \<lparr>sync_paragraphs = Inr emptyBodyItems, sync_ranges = (\<lambda>batch. Inr emptyBodyText)\<rparr>"

definition emptyBodyHeadings :: "heading list" where
  "emptyBodyHeadings =
     [\<lparr>h_paragraph = 0, h_text = js ''*Empty'', index = 0\<rparr>,
      \<lparr>h_paragraph = 1, h_text = js ''*Next'', index = 1\<rparr>]"

text \<open>Headings that consist of the marker alone.\<close>

definition bareItems :: "Paragraph list" where
  "bareItems =
     [\<lparr>styleBuiltIn = js ''Heading1'', p_text = js ''*''\<rparr>,
      \<lparr>styleBuiltIn = js ''Normal'', p_text = js ''payload''\<rparr>,
      \<lparr>styleBuiltIn = js ''Heading3'', p_text = js '' _ ''\<rparr>]"

definition bareText :: "Range \<Rightarrow> jsstring" where
  "bareText r =
     (if r = ExpandTo (ParagraphRange 0 End) (ParagraphRange 2 Start) then js ''payload''
      else [])"

definition bareService :: doc_service where
  "bareService = \<lparr>sync_paragraphs = Inr bareItems, sync_ranges = (\<lambda>batch. Inr bareText)\<rparr>"

definition bareHeadings :: "heading list" where
  "bareHeadings =
     [\<lparr>h_paragraph = 0, h_text = js ''*'', index = 0\<rparr>,
      \<lparr>h_paragraph = 2, h_text = js '' _ '', index = 2\<rparr>]"

definition clipboardOk :: "jsstring \<Rightarrow> js_error option" where
  "clipboardOk t = None"

section \<open>The index lists\<close>

text \<open>
  Facts about filtering a list of positions, used for the place of a heading among
  the Button headings and among the marked headings.
\<close>

lemma upt_head: "[n..<Suc (n + m)] = n # [Suc n..<Suc (n + m)]"
  by (simp add: upt_conv_Cons)

lemma filter_upt_split:
  "i < n \<Longrightarrow> filter P [0..<n] = filter P [0..<i] @ (if P i then [i] else []) @ filter P [Suc i..<n]"
proof -
  assume "i < n"
  then have "[0..<n] = [0..<i] @ i # [Suc i..<n]"
    using upt_add_eq_append[of 0 i "n - i"] by (simp add: upt_conv_Cons)
  then show ?thesis by simp
qed

lemma filter_upt_nth:
  assumes "i < n" and "P i"
  shows "length (filter P [0..<i]) < length (filter P [0..<n])"
    and "filter P [0..<n] ! length (filter P [0..<i]) = i"
  using assms by (simp_all add: filter_upt_split[of i n P] nth_append)

lemma count_before:
  "i \<le> length xs \<Longrightarrow> length (filter (\<lambda>k. P (xs ! k)) [0..<i]) = length (filter P (take i xs))"
proof -
  assume le: "i \<le> length xs"
  have "take i xs = map (nth xs) [0..<i]"
    using le by (intro nth_equalityI) simp_all
  then show ?thesis
    by (simp add: filter_map o_def)
qed

section \<open>Trimming and markers\<close>

text \<open>
  What \<open>trim\<close> leaves, and what the marker tests say about the trimmed heading text.
\<close>

lemma strip_back:
  "d = rev (dropWhile P (rev d)) @ rev (takeWhile P (rev d))"
proof -
  have "rev (dropWhile P (rev d)) @ rev (takeWhile P (rev d)) =
      rev (takeWhile P (rev d) @ dropWhile P (rev d))"
    by (simp only: rev_append)
  also have "\<dots> = rev (rev d)"
    by (simp only: takeWhile_dropWhile_id)
  finally show ?thesis by simp
qed

lemma dropWhile_rev_nonempty: "dropWhile P (rev d) \<noteq> [] \<Longrightarrow> d \<noteq> []"
  by auto

lemma trim_decompose:
  "\<exists>a b. s = a @ trim s @ b \<and> list_all isWhiteSpace a \<and> list_all isWhiteSpace b"
proof -
  let ?d = "dropWhile isWhiteSpace s"
  have 1: "s = takeWhile isWhiteSpace s @ ?d" by simp
  have 2: "?d = trim s @ rev (takeWhile isWhiteSpace (rev ?d))"
    unfolding trim_def by (rule strip_back)
  have 3: "list_all isWhiteSpace (takeWhile isWhiteSpace s)"
    by (simp add: list_all_iff) (meson set_takeWhileD)
  have 4: "list_all isWhiteSpace (rev (takeWhile isWhiteSpace (rev ?d)))"
    by (simp add: list_all_iff) (meson set_takeWhileD)
  from 1 2 have "s = takeWhile isWhiteSpace s @ trim s @ rev (takeWhile isWhiteSpace (rev ?d))"
    by simp
  with 3 4 show ?thesis by blast
qed

lemma trim_edges:
  "trim s \<noteq> [] \<Longrightarrow> \<not> isWhiteSpace (hd (trim s)) \<and> \<not> isWhiteSpace (last (trim s))"
proof -
  assume ne: "trim s \<noteq> []"
  let ?d = "dropWhile isWhiteSpace s"
  let ?e = "dropWhile isWhiteSpace (rev ?d)"
  have e: "?e \<noteq> []" using ne by (simp add: trim_def)
  then have l: "\<not> isWhiteSpace (hd ?e)" by (rule hd_dropWhile)
  have "last (trim s) = hd ?e" using e by (simp add: trim_def last_rev)
  with l have last: "\<not> isWhiteSpace (last (trim s))" by simp
  have d: "?d \<noteq> []" using e by (rule dropWhile_rev_nonempty)
  then have hd: "\<not> isWhiteSpace (hd ?d)" by (rule hd_dropWhile)
  have "?d = trim s @ rev (takeWhile isWhiteSpace (rev ?d))"
    unfolding trim_def by (rule strip_back)
  then have "hd ?d = hd (trim s)" using ne by (metis hd_append2)
  with hd last show ?thesis by simp
qed

lemma button_not_label: "isButton h \<Longrightarrow> \<not> isLabel h"
  by (auto simp: isButton_def isLabel_def startsWith_def js_def)

lemma button_marker:
  "isButton h \<Longrightarrow> \<exists>rest. trim (h_text h) = 0x2A # rest \<and> displayText h = trim rest"
  by (cases "trim (h_text h)")
     (simp_all add: isButton_def startsWith_def displayText_def substring_def js_def)

lemma label_marker:
  "isLabel h \<Longrightarrow> \<exists>rest. trim (h_text h) = 0x5F # rest \<and> displayText h = trim rest"
  by (cases "trim (h_text h)")
     (simp_all add: isLabel_def startsWith_def displayText_def substring_def js_def)

section \<open>The loops in closed form\<close>

text \<open>
  Each loop of the scan, started at any position with any accumulator, appends a map over
  a filtered list of positions.
\<close>

lemma findHeadings_eq:
  "findHeadings items i acc =
     acc @ map (\<lambda>k. \<lparr>h_paragraph = k, h_text = p_text (items ! k), index = k\<rparr>)
             (filter (\<lambda>k. isHeading (items ! k)) [i..<length items])"
proof (induction items i acc rule: findHeadings.induct)
  case (1 items i acc)
  show ?case
  proof (cases "i < length items")
    case True
    then have u: "[i..<length items] = i # [i + 1..<length items]"
      by (simp add: upt_conv_Cons)
    show ?thesis
      using True 1 by (subst findHeadings.simps) (simp add: u isHeading_def)
  next
    case False
    then show ?thesis by (subst findHeadings.simps) simp
  qed
qed

lemma findHeadings_closed:
  "findHeadings items 0 [] =
     map (\<lambda>k. \<lparr>h_paragraph = k, h_text = p_text (items ! k), index = k\<rparr>)
       (filter (\<lambda>k. isHeading (items ! k)) [0..<length items])"
  by (simp add: findHeadings_eq)

lemma no_heading_found:
  "(\<forall>p\<in>set items. \<not> isHeading p) \<Longrightarrow> findHeadings items 0 [] = []"
  by (simp add: findHeadings_closed filter_empty_conv)

lemma heading_paragraph:
  assumes "findHeadings items 0 [] = hs" and "i < length hs"
  shows "h_paragraph (hs ! i) < length items \<and> isHeading (items ! h_paragraph (hs ! i))
    \<and> h_text (hs ! i) = p_text (items ! h_paragraph (hs ! i))
    \<and> index (hs ! i) = h_paragraph (hs ! i)"
proof -
  let ?ks = "filter (\<lambda>k. isHeading (items ! k)) [0..<length items]"
  have hs: "hs = map (\<lambda>k. \<lparr>h_paragraph = k, h_text = p_text (items ! k), index = k\<rparr>) ?ks"
    using assms(1) by (simp add: findHeadings_closed)
  then have i: "i < length ?ks" using assms(2) by simp
  then have "?ks ! i \<in> set ?ks" by (rule nth_mem)
  then have "?ks ! i < length items \<and> isHeading (items ! (?ks ! i))" by simp
  then show ?thesis using i by (simp add: hs)
qed

lemma buttonsFrom_step:
  "i < length hs \<Longrightarrow>
   buttonsFrom hs i = (if isButton (hs ! i) then [i] else []) @ buttonsFrom hs (i + 1)"
  by (simp add: buttonsFrom_def upt_conv_Cons)

lemma markedFrom_step:
  "i < length hs \<Longrightarrow>
   markedFrom hs i =
     (if isButton (hs ! i) \<or> isLabel (hs ! i) then [i] else []) @ markedFrom hs (i + 1)"
  by (simp add: markedFrom_def upt_conv_Cons)

lemma buttonsFrom_end: "\<not> i < length hs \<Longrightarrow> buttonsFrom hs i = []"
  by (simp add: buttonsFrom_def)

lemma markedFrom_end: "\<not> i < length hs \<Longrightarrow> markedFrom hs i = []"
  by (simp add: markedFrom_def)

lemma buttonsBefore_step:
  "i < k \<Longrightarrow> buttonsBefore hs i k = (if isButton (hs ! i) then 1 else 0) + buttonsBefore hs (i + 1) k"
  by (simp add: buttonsBefore_def upt_conv_Cons)

lemma markedFrom_ge: "k \<in> set (markedFrom hs i) \<Longrightarrow> i \<le> k"
  by (simp add: markedFrom_def)

lemma buttonsBefore_marked:
  "k \<in> set (markedFrom hs (Suc i)) \<Longrightarrow>
   buttonsBefore hs i k = (if isButton (hs ! i) then 1 else 0) + buttonsBefore hs (Suc i) k"
  using markedFrom_ge[of k hs "Suc i"] by (simp add: buttonsBefore_step)

lemma itemOf_button:
  "isButton (hs ! k) \<Longrightarrow>
   itemOf hs r k = \<lparr>item_type = TButton, item_text = displayText (hs ! k), data = Some r\<rparr>"
  by (simp add: itemOf_def)

lemma itemOf_label:
  "\<not> isButton (hs ! k) \<Longrightarrow>
   itemOf hs r k = \<lparr>item_type = TLabel, item_text = displayText (hs ! k), data = None\<rparr>"
  by (simp add: itemOf_def)

lemma prepare_store:
  "store (prepare hs i s) = store s @ map (promptOf hs) (buttonsFrom hs i)"
proof (induction hs i s rule: prepare.induct)
  case (1 hs i s)
  show ?case
  proof (cases "i < length hs")
    case True
    show ?thesis
      using True 1
      by (subst prepare.simps)
         (simp add: buttonsFrom_step isButton_def isLabel_def pushButton_def pushLabel_def
            promptOf_def displayText_def Let_def)
  next
    case False
    then show ?thesis by (subst prepare.simps) (simp add: buttonsFrom_end)
  qed
qed

lemma prepare_pending:
  "pending (prepare hs i s) = pending s @ map (contentRange hs) (buttonsFrom hs i)"
proof (induction hs i s rule: prepare.induct)
  case (1 hs i s)
  show ?case
  proof (cases "i < length hs")
    case True
    show ?thesis
      using True 1
      by (subst prepare.simps)
         (simp add: buttonsFrom_step isButton_def isLabel_def pushButton_def pushLabel_def Let_def)
  next
    case False
    then show ?thesis by (subst prepare.simps) (simp add: buttonsFrom_end)
  qed
qed

lemma prepare_rangesToLoad:
  "rangesToLoad (prepare hs i s) =
     rangesToLoad s @ [length (store s)..<length (store s) + length (buttonsFrom hs i)]"
proof (induction hs i s rule: prepare.induct)
  case (1 hs i s)
  show ?case
  proof (cases "i < length hs")
    case True
    show ?thesis
      using True 1
      by (subst prepare.simps)
         (simp add: buttonsFrom_step isButton_def isLabel_def pushButton_def pushLabel_def Let_def
            upt_head del: upt_Suc)
  next
    case False
    then show ?thesis by (subst prepare.simps) (simp add: buttonsFrom_end)
  qed
qed

lemma prepare_uiItems:
  "uiItemsToCreate (prepare hs i s) =
     uiItemsToCreate s @
     map (\<lambda>k. itemOf hs (length (store s) + buttonsBefore hs i k) k) (markedFrom hs i)"
proof (induction hs i s rule: prepare.induct)
  case (1 hs i s)
  show ?case
  proof (cases "i < length hs")
    case False
    then show ?thesis by (subst prepare.simps) (simp add: markedFrom_end)
  next
    case True
    have here: "buttonsBefore hs i i = 0" by (simp add: buttonsBefore_def)
    consider (b) "isButton (hs ! i)" | (l) "\<not> isButton (hs ! i)" "isLabel (hs ! i)"
      | (n) "\<not> isButton (hs ! i)" "\<not> isLabel (hs ! i)" by blast
    then show ?thesis
    proof cases
      case b
      then have "uiItemsToCreate (prepare hs i s) =
          uiItemsToCreate (prepare hs (i + 1) (pushButton hs i s))"
        using True by (subst prepare.simps) (simp add: isButton_def)
      also have "\<dots> = uiItemsToCreate (pushButton hs i s) @
          map (\<lambda>k. itemOf hs (length (store (pushButton hs i s)) + buttonsBefore hs (i + 1) k) k)
            (markedFrom hs (i + 1))"
        using 1(1) True b by (simp add: isButton_def)
      finally show ?thesis
        using True b
        by (simp add: markedFrom_step buttonsBefore_marked here pushButton_def Let_def itemOf_button displayText_def)
    next
      case l
      then have "uiItemsToCreate (prepare hs i s) =
          uiItemsToCreate (prepare hs (i + 1) (pushLabel hs i s))"
        using True by (subst prepare.simps) (simp add: isButton_def isLabel_def)
      also have "\<dots> = uiItemsToCreate (pushLabel hs i s) @
          map (\<lambda>k. itemOf hs (length (store (pushLabel hs i s)) + buttonsBefore hs (i + 1) k) k)
            (markedFrom hs (i + 1))"
        using 1(2) True l by (simp add: isButton_def isLabel_def)
      finally show ?thesis
        using True l
        by (simp add: markedFrom_step buttonsBefore_marked here pushLabel_def Let_def itemOf_label displayText_def)
    next
      case n
      then have "uiItemsToCreate (prepare hs i s) = uiItemsToCreate (prepare hs (i + 1) s)"
        using True by (subst prepare.simps) (simp add: isButton_def isLabel_def)
      also have "\<dots> = uiItemsToCreate s @
          map (\<lambda>k. itemOf hs (length (store s) + buttonsBefore hs (i + 1) k) k)
            (markedFrom hs (i + 1))"
        using 1(3) True n by (simp add: isButton_def isLabel_def)
      finally show ?thesis
        using True n by (simp add: markedFrom_step buttonsBefore_marked)
    qed
  qed
qed

lemma retrieve_fresh:
  "retrieve loaded [length xs..<length xs + length ys] (xs @ ys) =
     xs @ map (\<lambda>p. p\<lparr>textToCopy := trim (loaded (p_range p))\<rparr>) ys"
proof (induction ys arbitrary: xs)
  case Nil
  show ?case by simp
next
  case (Cons y ys)
  let ?y = "y\<lparr>textToCopy := trim (loaded (p_range y))\<rparr>"
  have idx: "[length xs..<length xs + length (y # ys)] =
      length xs # [length (xs @ [?y])..<length (xs @ [?y]) + length ys]"
    using upt_conv_Cons[of "length xs" "length xs + length (y # ys)"] by simp
  have upd: "(xs @ y # ys)[length xs := ?y] = (xs @ [?y]) @ ys"
    by simp
  have "retrieve loaded [length xs..<length xs + length (y # ys)] (xs @ y # ys) =
      retrieve loaded [length (xs @ [?y])..<length (xs @ [?y]) + length ys] ((xs @ [?y]) @ ys)"
    unfolding idx retrieve.simps upd[symmetric] by simp
  also have "\<dots> = (xs @ [?y]) @ map (\<lambda>p. p\<lparr>textToCopy := trim (loaded (p_range p))\<rparr>) ys"
    by (rule Cons.IH)
  finally show ?case by simp
qed

lemma renderItem_appends:
  "renderItem w item = w\<lparr>container := container w @ [elementOfItem item]\<rparr>"
  by (cases "item_type item") (simp_all add: renderItem_def elementOfItem_def)

lemma foldl_renderItem:
  "foldl renderItem w its = w\<lparr>container := container w @ map elementOfItem its\<rparr>"
  by (induction its arbitrary: w) (simp_all add: renderItem_appends)

section \<open>The scan in closed form\<close>

text \<open>
  The world a scan leaves, for each of its four ways to end, and the element built for a
  given heading.
\<close>

lemma scan_fetch_failed:
  assumes "sync_paragraphs svc = Inl e"
  shows "scanAndBuildUI svc w =
     w\<lparr>statusMessage := js ''Error scanning document. See console.'',
       container := [],
       console := console w @ [ConsoleError (js ''Error in scanAndBuildUI:'') e],
       syncs := syncs w @ [FetchParagraphs]\<rparr>"
  using assms by (simp add: scanAndBuildUI_def wordRun_def Let_def)

lemma scan_no_headings:
  assumes "sync_paragraphs svc = Inr items" and "findHeadings items 0 [] = []"
  shows "scanAndBuildUI svc w =
     w\<lparr>statusMessage := js ''No headings found in this document.'',
       container := [],
       syncs := syncs w @ [FetchParagraphs]\<rparr>"
  using assms by (simp add: scanAndBuildUI_def wordRun_def Let_def)

lemma scan_unresolved:
  assumes "sync_paragraphs svc = Inr items" and "findHeadings items 0 [] = hs"
    and "hs \<noteq> []" and "sync_ranges svc (rangeBatch hs) = Inl e"
  shows "scanAndBuildUI svc w =
     w\<lparr>statusMessage := js ''Error scanning document. See console.'',
       container := [],
       console := console w @ [ConsoleError (js ''Error in scanAndBuildUI:'') e],
       syncs := syncs w @ [FetchParagraphs, ResolveRanges (rangeBatch hs)],
       heap := heap w @ map (promptOf hs) (buttonsFrom hs 0)\<rparr>"
proof -
  let ?s = "prepare hs 0 \<lparr>uiItemsToCreate = [], rangesToLoad = [], pending = [], store = heap w\<rparr>"
  have p: "pending ?s = rangeBatch hs"
    by (simp add: prepare_pending rangeBatch_def)
  have st: "store ?s = heap w @ map (promptOf hs) (buttonsFrom hs 0)"
    by (simp add: prepare_store)
  show ?thesis
    using assms by (simp add: scanAndBuildUI_def wordRun_def Let_def p st)
qed

lemma scan_resolved:
  assumes "sync_paragraphs svc = Inr items" and "findHeadings items 0 [] = hs"
    and "hs \<noteq> []" and "sync_ranges svc (rangeBatch hs) = Inr loaded"
  shows "scanAndBuildUI svc w =
     w\<lparr>statusMessage :=
         (if markedFrom hs 0 = [] then js ''No prompts found (use '*' or '_' in headings).''
          else []),
       container := map (elementOf hs (length (heap w))) (markedFrom hs 0),
       syncs := syncs w @ [FetchParagraphs, ResolveRanges (rangeBatch hs)],
       heap := heap w @ map (resolvedPrompt hs loaded) (buttonsFrom hs 0)\<rparr>"
proof -
  let ?s = "prepare hs 0 \<lparr>uiItemsToCreate = [], rangesToLoad = [], pending = [], store = heap w\<rparr>"
  have p: "pending ?s = rangeBatch hs"
    by (simp add: prepare_pending rangeBatch_def)
  have st: "store ?s = heap w @ map (promptOf hs) (buttonsFrom hs 0)"
    by (simp add: prepare_store)
  have r: "rangesToLoad ?s = [length (heap w)..<length (heap w) + length (map (promptOf hs) (buttonsFrom hs 0))]"
    by (simp add: prepare_rangesToLoad)
  have u: "uiItemsToCreate ?s =
      map (\<lambda>k. itemOf hs (length (heap w) + buttonsBefore hs 0 k) k) (markedFrom hs 0)"
    by (simp add: prepare_uiItems)
  have h: "retrieve loaded (rangesToLoad ?s) (store ?s) =
      heap w @ map (resolvedPrompt hs loaded) (buttonsFrom hs 0)"
    unfolding r st retrieve_fresh by (simp add: promptOf_def resolvedPrompt_def)
  show ?thesis
    using assms
    by (simp add: scanAndBuildUI_def wordRun_def Let_def p u h foldl_renderItem elementOf_def
        o_def)
qed

lemma scan_syncs:
  assumes "sync_paragraphs svc = Inr items" and "findHeadings items 0 [] = hs"
    and "hs \<noteq> []"
  shows "syncs (scanAndBuildUI svc w) =
     syncs w @ [FetchParagraphs, ResolveRanges (rangeBatch hs)]"
proof (cases "sync_ranges svc (rangeBatch hs)")
  case (Inl e)
  show ?thesis by (simp add: scan_unresolved[OF assms Inl])
next
  case (Inr loaded)
  show ?thesis by (simp add: scan_resolved[OF assms Inr])
qed

lemma length_rangeBatch: "length (rangeBatch hs) = length (filter isButton hs)"
  using count_before[of "length hs" hs isButton] by (simp add: rangeBatch_def buttonsFrom_def)

lemma buttonsBefore_take:
  "i \<le> length hs \<Longrightarrow> buttonsBefore hs 0 i = length (filter isButton (take i hs))"
  by (simp add: buttonsBefore_def count_before)

lemma button_position:
  assumes "i < length hs" and "isButton (hs ! i)"
  shows "length (filter isButton (take i hs)) < length (buttonsFrom hs 0)"
    and "buttonsFrom hs 0 ! length (filter isButton (take i hs)) = i"
  using filter_upt_nth[of i "length hs" "\<lambda>k. isButton (hs ! k)"] assms
    count_before[of i hs isButton]
  by (simp_all add: buttonsFrom_def)

lemma marked_position:
  assumes "i < length hs" and "isButton (hs ! i) \<or> isLabel (hs ! i)"
  shows "length (filter (\<lambda>h. isButton h \<or> isLabel h) (take i hs)) < length (markedFrom hs 0)"
    and "markedFrom hs 0 ! length (filter (\<lambda>h. isButton h \<or> isLabel h) (take i hs)) = i"
  using filter_upt_nth[of i "length hs" "\<lambda>k. isButton (hs ! k) \<or> isLabel (hs ! k)"] assms
    count_before[of i hs "\<lambda>h. isButton h \<or> isLabel h"]
  by (simp_all add: markedFrom_def)

lemma directive_of_element:
  assumes "i < length hs" and "isButton (hs ! i) \<or> isLabel (hs ! i)"
  shows "directiveOf (hp @ map (resolvedPrompt hs loaded) (buttonsFrom hs 0))
           (elementOf hs (length hp) i) = Some (directiveFor hs loaded i)"
proof (cases "isButton (hs ! i)")
  case True
  have pos: "buttonsBefore hs 0 i < length (buttonsFrom hs 0)"
      "buttonsFrom hs 0 ! buttonsBefore hs 0 i = i"
    using button_position[OF assms(1) True] assms(1) by (simp_all add: buttonsBefore_take)
  show ?thesis
    using True pos
    by (simp add: elementOf_def itemOf_def elementOfItem_def directiveFor_def nth_append
        resolvedPrompt_def)
next
  case False
  then show ?thesis
    by (simp add: elementOf_def itemOf_def elementOfItem_def directiveFor_def)
qed

lemma scan_directives:
  assumes "sync_paragraphs svc = Inr items" and "findHeadings items 0 [] = hs"
    and "hs \<noteq> []" and "sync_ranges svc (rangeBatch hs) = Inr loaded"
  shows "map (directiveOf (heap (scanAndBuildUI svc w))) (container (scanAndBuildUI svc w)) =
     map (\<lambda>k. Some (directiveFor hs loaded k)) (markedFrom hs 0)"
proof -
  have "k \<in> set (markedFrom hs 0) \<Longrightarrow>
      directiveOf (heap w @ map (resolvedPrompt hs loaded) (buttonsFrom hs 0))
        (elementOf hs (length (heap w)) k) = Some (directiveFor hs loaded k)" for k
    by (rule directive_of_element) (simp_all add: markedFrom_def)
  then show ?thesis
    by (simp add: scan_resolved[OF assms])
qed

lemma scan_directive_at:
  assumes "sync_paragraphs svc = Inr items" and "findHeadings items 0 [] = hs"
    and "sync_ranges svc (rangeBatch hs) = Inr loaded"
    and "i < length hs" and "isButton (hs ! i) \<or> isLabel (hs ! i)"
  shows "length (filter (\<lambda>h. isButton h \<or> isLabel h) (take i hs)) <
           length (container (scanAndBuildUI svc w))"
    and "directiveOf (heap (scanAndBuildUI svc w))
           (container (scanAndBuildUI svc w) !
              length (filter (\<lambda>h. isButton h \<or> isLabel h) (take i hs))) =
         Some (directiveFor hs loaded i)"
proof -
  have ne: "hs \<noteq> []" using assms(4) by auto
  note r = scan_resolved[OF assms(1,2) ne assms(3), of w]
  note p = marked_position[OF assms(4,5)]
  show "length (filter (\<lambda>h. isButton h \<or> isLabel h) (take i hs)) <
           length (container (scanAndBuildUI svc w))"
    using p(1) by (simp add: r)
  show "directiveOf (heap (scanAndBuildUI svc w))
           (container (scanAndBuildUI svc w) !
              length (filter (\<lambda>h. isButton h \<or> isLabel h) (take i hs))) =
         Some (directiveFor hs loaded i)"
    using p directive_of_element[OF assms(4,5), of "heap w" loaded] by (simp add: r)
qed

lemma scan_button_at:
  assumes "sync_paragraphs svc = Inr items" and "findHeadings items 0 [] = hs"
    and "sync_ranges svc (rangeBatch hs) = Inr loaded"
    and "i < length hs" and "isButton (hs ! i)"
  shows "\<exists>r. container (scanAndBuildUI svc w) !
             length (filter (\<lambda>h. isButton h \<or> isLabel h) (take i hs)) =
           ButtonEl (js ''ms-Button'') (displayText (hs ! i))
             \<lparr>item_type = TButton, item_text = displayText (hs ! i), data = Some r\<rparr>
         \<and> r < length (heap (scanAndBuildUI svc w))
         \<and> heap (scanAndBuildUI svc w) ! r = resolvedPrompt hs loaded i"
proof -
  have ne: "hs \<noteq> []" using assms(4) by auto
  note r = scan_resolved[OF assms(1,2) ne assms(3), of w]
  have m: "isButton (hs ! i) \<or> isLabel (hs ! i)" using assms(5) by simp
  note p = marked_position[OF assms(4) m]
  have pos: "buttonsBefore hs 0 i < length (buttonsFrom hs 0)"
      "buttonsFrom hs 0 ! buttonsBefore hs 0 i = i"
    using button_position[OF assms(4,5)] assms(4) by (simp_all add: buttonsBefore_take)
  show ?thesis
    using p pos assms(5)
    by (simp add: r elementOf_def itemOf_def elementOfItem_def nth_append)
qed

lemma copy_empty_text:
  "statusMessage (copyTextToClipboard writeText [] btnText w) =
     js ''Warning: No text found to copy.''
   \<and> clipboardWrites (copyTextToClipboard writeText [] btnText w) = clipboardWrites w
   \<and> console (copyTextToClipboard writeText [] btnText w) =
       console w @
         [ConsoleLog (js ''Button clicked for: '' @ 0x22 # btnText @ [0x22]),
          ConsoleWarn (js ''Text to copy is empty. (Was it empty in the doc?)'')]"
  by (simp add: copyTextToClipboard_def Let_def js_def)

section \<open>The example documents, evaluated\<close>

lemmas eval_text =
  isButton_def isLabel_def displayText_def startsWith_def substring_def trim_def
  isWhiteSpace_def js_def

lemma plain_headings: "findHeadings plainItems 0 [] = []"
  by (simp add: findHeadings.simps plainItems_def startsWith_def js_def)

lemma unmarked_headings:
  "findHeadings unmarkedItems 0 [] = [\<lparr>h_paragraph = 0, h_text = js ''Intro'', index = 0\<rparr>]"
  by (simp add: findHeadings.simps unmarkedItems_def startsWith_def js_def)

lemma example_headings: "findHeadings exampleItems 0 [] = exampleHeadings"
  by (simp add: findHeadings.simps exampleItems_def exampleHeadings_def startsWith_def js_def)

lemma label_headings:
  "findHeadings labelItems 0 [] = [\<lparr>h_paragraph = 0, h_text = js ''_Section'', index = 0\<rparr>]"
  by (simp add: findHeadings.simps labelItems_def startsWith_def js_def)

lemma example_buttons: "buttonsFrom exampleHeadings 0 = [1, 3]"
  by (simp add: buttonsFrom_def exampleHeadings_def isButton_def startsWith_def trim_def
      isWhiteSpace_def js_def upt_rec)

lemma example_batch:
  "rangeBatch exampleHeadings =
     [ExpandTo (ParagraphRange 1 End) (ParagraphRange 3 Start),
      ExpandTo (ParagraphRange 4 End) (BodyRange End)]"
  by (simp add: rangeBatch_def example_buttons contentRange_def at_def)
     (simp add: exampleHeadings_def)

lemma emptyBody_headings: "findHeadings emptyBodyItems 0 [] = emptyBodyHeadings"
  by (simp add: findHeadings.simps emptyBodyItems_def emptyBodyHeadings_def startsWith_def
      js_def)

lemma bare_headings: "findHeadings bareItems 0 [] = bareHeadings"
  by (simp add: findHeadings.simps bareItems_def bareHeadings_def startsWith_def js_def)

lemma emptyBody_button0: "isButton (emptyBodyHeadings ! 0)"
  by (simp add: emptyBodyHeadings_def eval_text)

section \<open>The claims\<close>

text \<open>
  Claim C1, as amended. Text retrieval is batched. Every scan begins with the paragraph
  fetch. When the fetch succeeds and finds at least one heading, exactly one
  range-resolution call follows, with one descriptor per Button heading, so the scan has
  exactly two suspension points against the service. When the fetch fails or finds no
  heading, the scan has only the first. No scan suspends once per heading or directive.
\<close>

theorem batched_range_resolution:
  "syncs (scanAndBuildUI svc w) =
     syncs w @ FetchParagraphs #
       (case sync_paragraphs svc of
          Inl e \<Rightarrow> []
        | Inr items \<Rightarrow>
            if findHeadings items 0 [] = [] then []
            else [ResolveRanges (rangeBatch (findHeadings items 0 []))])
   \<and> length (rangeBatch hs) = length (filter isButton hs)"
proof (cases "sync_paragraphs svc")
  case (Inl e)
  then show ?thesis
    by (simp add: scan_fetch_failed length_rangeBatch)
next
  case (Inr items)
  then show ?thesis
    by (cases "findHeadings items 0 [] = []")
       (simp_all add: scan_no_headings scan_syncs length_rangeBatch)
qed

theorem batched_range_resolution_witness:
  "syncs (scanAndBuildUI exampleService emptyWorld) =
     [FetchParagraphs,
      ResolveRanges [ExpandTo (ParagraphRange 1 End) (ParagraphRange 3 Start),
                     ExpandTo (ParagraphRange 4 End) (BodyRange End)]]
   \<and> length (filter isButton exampleHeadings) = 2"
proof -
  have "exampleHeadings \<noteq> []" by (simp add: exampleHeadings_def)
  then show ?thesis
    using batched_range_resolution[of exampleService emptyWorld exampleHeadings]
    by (simp add: exampleService_def emptyWorld_def example_headings example_batch)
qed

theorem one_sync_without_headings:
  "syncs (scanAndBuildUI plainService emptyWorld) = [FetchParagraphs]
   \<and> length (syncs (scanAndBuildUI plainService emptyWorld)) \<noteq> 2"
  by (simp add: scanAndBuildUI_def wordRun_def plainService_def emptyWorld_def plain_headings)

text \<open>
  Claim C2. For every Button heading at position \<open>i\<close> of the heading sequence, the
  range queued for it (at the position of that heading among the Button headings) runs
  from the end of the heading's own paragraph to the start of the paragraph of the
  heading at position \<open>i + 1\<close>, whatever that heading's marker, or to the end of the body
  when \<open>i\<close> is the last heading.
\<close>

theorem content_range_boundaries:
  assumes "sync_paragraphs svc = Inr items" and "findHeadings items 0 [] = hs"
    and "i < length hs" and "isButton (hs ! i)"
  shows "\<exists>batch. syncs (scanAndBuildUI svc w) = syncs w @ [FetchParagraphs, ResolveRanges batch]
      \<and> length (filter isButton (take i hs)) < length batch
      \<and> batch ! length (filter isButton (take i hs)) =
          ExpandTo (ParagraphRange (h_paragraph (hs ! i)) End)
            (if i + 1 < length hs then ParagraphRange (h_paragraph (hs ! (i + 1))) Start
             else BodyRange End)
      \<and> isHeading (items ! h_paragraph (hs ! i))
      \<and> p_text (items ! h_paragraph (hs ! i)) = h_text (hs ! i)"
proof -
  have ne: "hs \<noteq> []" using assms(3) by auto
  have "rangeBatch hs ! length (filter isButton (take i hs)) = contentRange hs i"
    using button_position[OF assms(3,4)] by (simp add: rangeBatch_def)
  moreover have "length (filter isButton (take i hs)) < length (rangeBatch hs)"
    using button_position(1)[OF assms(3,4)] by (simp add: rangeBatch_def)
  ultimately show ?thesis
    using scan_syncs[OF assms(1,2) ne, of w] heading_paragraph[OF assms(2,3)]
    by (simp add: contentRange_def at_def)
qed

theorem content_range_boundaries_witness:
  "sync_paragraphs exampleService = Inr exampleItems
   \<and> findHeadings exampleItems 0 [] = exampleHeadings
   \<and> isButton (exampleHeadings ! 1) \<and> isLabel (exampleHeadings ! 2)
   \<and> isButton (exampleHeadings ! 3)
   \<and> (\<exists>batch. syncs (scanAndBuildUI exampleService emptyWorld) =
          [FetchParagraphs, ResolveRanges batch]
        \<and> batch ! 0 = ExpandTo (ParagraphRange 1 End) (ParagraphRange 3 Start)
        \<and> batch ! 1 = ExpandTo (ParagraphRange 4 End) (BodyRange End))"
proof -
  have a: "sync_paragraphs exampleService = Inr exampleItems"
    by (simp add: exampleService_def)
  have b1: "isButton (exampleHeadings ! Suc 0)" and b2: "isLabel (exampleHeadings ! 2)"
    and b3: "isButton (exampleHeadings ! 3)"
    by (simp_all add: exampleHeadings_def eval_text)
  have n1: "Suc 0 < length exampleHeadings" and n3: "(3::nat) < length exampleHeadings"
    by (simp_all add: exampleHeadings_def)
  have c1: "length (filter isButton (take (Suc 0) exampleHeadings)) = 0"
    and c3: "length (filter isButton (take 3 exampleHeadings)) = Suc 0"
    by (simp_all add: exampleHeadings_def eval_text)
  have p: "h_paragraph (exampleHeadings ! Suc 0) = Suc 0"
    "h_paragraph (exampleHeadings ! Suc (Suc 0)) = 3"
    "h_paragraph (exampleHeadings ! 3) = 4" "length exampleHeadings = 4"
    by (simp_all add: exampleHeadings_def)
  from content_range_boundaries[OF a example_headings n1 b1, of emptyWorld]
    content_range_boundaries[OF a example_headings n3 b3, of emptyWorld]
  have "\<exists>batch. syncs (scanAndBuildUI exampleService emptyWorld) =
          [FetchParagraphs, ResolveRanges batch]
        \<and> batch ! 0 = ExpandTo (ParagraphRange 1 End) (ParagraphRange 3 Start)
        \<and> batch ! 1 = ExpandTo (ParagraphRange 4 End) (BodyRange End)"
    by (auto simp: c1 c3 p emptyWorld_def)
  with a b1 b2 b3 example_headings show ?thesis by simp
qed

text \<open>
  Claim C3. The heading sequence lists the heading-styled paragraphs in paragraph order,
  each once. When the scan succeeds, the elements of the container, read as directives,
  are those of the headings that carry a marker, in heading order, each once: Labels and
  Buttons interleaved as in the document.
\<close>

theorem directives_in_document_order:
  assumes "sync_paragraphs svc = Inr items" and "findHeadings items 0 [] = hs"
    and "hs = [] \<or> sync_ranges svc (rangeBatch hs) = Inr loaded"
  shows "hs = map (\<lambda>k. \<lparr>h_paragraph = k, h_text = p_text (items ! k), index = k\<rparr>)
                (filter (\<lambda>k. isHeading (items ! k)) [0..<length items])
    \<and> map (directiveOf (heap (scanAndBuildUI svc w))) (container (scanAndBuildUI svc w)) =
        map (\<lambda>k. Some (directiveFor hs loaded k))
          (filter (\<lambda>k. isButton (hs ! k) \<or> isLabel (hs ! k)) [0..<length hs])"
proof (cases "hs = []")
  case True
  then show ?thesis
    using assms(1,2) scan_no_headings[OF assms(1), of w] findHeadings_closed[of items]
    by simp
next
  case False
  then have "sync_ranges svc (rangeBatch hs) = Inr loaded" using assms(3) by simp
  from scan_directives[OF assms(1,2) False this, of w] show ?thesis
    using assms(2) findHeadings_closed[of items] by (simp add: markedFrom_def)
qed

theorem directives_in_document_order_witness:
  "sync_paragraphs exampleService = Inr exampleItems
   \<and> sync_ranges exampleService (rangeBatch exampleHeadings) = Inr exampleText
   \<and> findHeadings exampleItems 0 [] = exampleHeadings
   \<and> map (directiveOf (heap (scanAndBuildUI exampleService emptyWorld)))
          (container (scanAndBuildUI exampleService emptyWorld)) =
       [Some (Button (js ''Explain'') (js ''body text A'')),
        Some (Label (js ''Section'')),
        Some (Button (js ''Summarize'') (js ''body text B''))]"
proof -
  have a: "sync_paragraphs exampleService = Inr exampleItems"
    by (simp add: exampleService_def)
  have b: "sync_ranges exampleService (rangeBatch exampleHeadings) = Inr exampleText"
    by (simp add: exampleService_def)
  have m: "filter (\<lambda>k. isButton (exampleHeadings ! k) \<or> isLabel (exampleHeadings ! k))
      [0..<length exampleHeadings] = [1, 2, 3]"
    by (simp add: exampleHeadings_def eval_text upt_rec)
  have d: "directiveFor exampleHeadings exampleText (Suc 0) =
      Button (js ''Explain'') (js ''body text A'')"
    "directiveFor exampleHeadings exampleText 2 = Label (js ''Section'')"
    "directiveFor exampleHeadings exampleText 3 = Button (js ''Summarize'') (js ''body text B'')"
    by (simp_all add: directiveFor_def contentRange_def at_def exampleText_def
        exampleHeadings_def eval_text)
  from directives_in_document_order[OF a example_headings disjI2[OF b], of emptyWorld]
  show ?thesis using a b example_headings by (simp add: m d)
qed

text \<open>
  Claim C4. When the paragraph fetch succeeds and no paragraph of the stream has a
  heading style, the scan stops after the first synchronisation: the status message is
  the "no headings" text (different from the "no prompts" text, from the error text and
  from the empty text of a scan that produced items), the container stays empty, no
  range is queued, no object is allocated and the service is not called a second time.
\<close>

theorem no_headings_early_exit:
  assumes "sync_paragraphs svc = Inr items" and "\<forall>p\<in>set items. \<not> isHeading p"
  shows "scanAndBuildUI svc w =
       w\<lparr>statusMessage := js ''No headings found in this document.'',
         container := [],
         syncs := syncs w @ [FetchParagraphs]\<rparr>
     \<and> js ''No headings found in this document.'' \<noteq>
         js ''No prompts found (use '*' or '_' in headings).''
     \<and> js ''No headings found in this document.'' \<noteq>
         js ''Error scanning document. See console.''
     \<and> js ''No headings found in this document.'' \<noteq> []"
  using scan_no_headings[OF assms(1) no_heading_found[OF assms(2)], of w]
  by (simp add: js_def)

theorem no_headings_early_exit_witness:
  "sync_paragraphs plainService = Inr plainItems
   \<and> list_all (\<lambda>p. \<not> isHeading p) plainItems
   \<and> scanAndBuildUI plainService emptyWorld =
       emptyWorld\<lparr>statusMessage := js ''No headings found in this document.'',
         container := [],
         syncs := syncs emptyWorld @ [FetchParagraphs]\<rparr>"
proof -
  have a: "sync_paragraphs plainService = Inr plainItems"
    by (simp add: plainService_def)
  have b: "\<forall>p\<in>set plainItems. \<not> isHeading p"
    by (simp add: plainItems_def isHeading_def startsWith_def js_def)
  show ?thesis
    using a b no_headings_early_exit[OF a b, of emptyWorld] by (simp add: list_all_iff)
qed

text \<open>
  Claim C5, as amended. When the paragraph stream has at least one heading, no trimmed
  heading text starts with \<open>*\<close> or \<open>_\<close>, and the second synchronisation, which the
  scan makes with an empty batch, succeeds, the scan ends with the "no prompts" status
  message, which differs from the "no headings" text and from the error text; the
  container is empty and nothing is written to the console. The paragraph stream alone
  does not decide this: when that second synchronisation throws, the same stream ends
  with the error status.
\<close>

theorem no_directives_result:
  assumes "sync_paragraphs svc = Inr items" and "findHeadings items 0 [] = hs"
    and "hs \<noteq> []" and "\<forall>h\<in>set hs. \<not> isButton h \<and> \<not> isLabel h"
    and "sync_ranges svc [] = Inr loaded"
  shows "scanAndBuildUI svc w =
       w\<lparr>statusMessage := js ''No prompts found (use '*' or '_' in headings).'',
         container := [],
         syncs := syncs w @ [FetchParagraphs, ResolveRanges []]\<rparr>
     \<and> js ''No prompts found (use '*' or '_' in headings).'' \<noteq>
         js ''No headings found in this document.''
     \<and> js ''No prompts found (use '*' or '_' in headings).'' \<noteq>
         js ''Error scanning document. See console.''"
proof -
  have b: "buttonsFrom hs 0 = []"
    using assms(4) by (simp add: buttonsFrom_def filter_empty_conv)
  have m: "markedFrom hs 0 = []"
    using assms(4) by (simp add: markedFrom_def filter_empty_conv)
  have r: "rangeBatch hs = []"
    by (simp add: rangeBatch_def b)
  show ?thesis
    using scan_resolved[OF assms(1,2,3), of loaded w] assms(5)
    by (simp add: r m b js_def)
qed

theorem no_directives_result_witness:
  "sync_paragraphs unmarkedService = Inr unmarkedItems
   \<and> findHeadings unmarkedItems 0 [] \<noteq> []
   \<and> list_all (\<lambda>h. \<not> isButton h \<and> \<not> isLabel h) (findHeadings unmarkedItems 0 [])
   \<and> sync_ranges unmarkedService [] = Inr (\<lambda>r. [])
   \<and> scanAndBuildUI unmarkedService emptyWorld =
       emptyWorld\<lparr>statusMessage := js ''No prompts found (use '*' or '_' in headings).'',
         container := [],
         syncs := syncs emptyWorld @ [FetchParagraphs, ResolveRanges []]\<rparr>"
proof -
  have a: "sync_paragraphs unmarkedService = Inr unmarkedItems"
    by (simp add: unmarkedService_def)
  have c: "findHeadings unmarkedItems 0 [] \<noteq> []"
    by (simp add: unmarked_headings)
  have d: "\<forall>h\<in>set (findHeadings unmarkedItems 0 []). \<not> isButton h \<and> \<not> isLabel h"
    by (simp add: unmarked_headings isButton_def isLabel_def startsWith_def trim_def
        isWhiteSpace_def js_def)
  have e: "sync_ranges unmarkedService [] = Inr (\<lambda>r. [])"
    by (simp add: unmarkedService_def)
  show ?thesis
    using a c d e no_directives_result[OF a refl c d e, of emptyWorld]
    by (simp add: list_all_iff)
qed

theorem unmarked_stream_can_end_failed:
  "sync_paragraphs flakyService = Inr unmarkedItems
   \<and> findHeadings unmarkedItems 0 [] \<noteq> []
   \<and> filter isButton (findHeadings unmarkedItems 0 []) = []
   \<and> filter isLabel (findHeadings unmarkedItems 0 []) = []
   \<and> syncs (scanAndBuildUI flakyService emptyWorld) = [FetchParagraphs, ResolveRanges []]
   \<and> statusMessage (scanAndBuildUI flakyService emptyWorld) =
       js ''Error scanning document. See console.''
   \<and> statusMessage (scanAndBuildUI flakyService emptyWorld) \<noteq>
       js ''No prompts found (use '*' or '_' in headings).''
   \<and> console (scanAndBuildUI flakyService emptyWorld) =
       [ConsoleError (js ''Error in scanAndBuildUI:'') offline]"
proof -
  have a: "sync_paragraphs flakyService = Inr unmarkedItems"
    by (simp add: flakyService_def)
  have c: "findHeadings unmarkedItems 0 [] \<noteq> []"
    by (simp add: unmarked_headings)
  have d: "filter isButton (findHeadings unmarkedItems 0 []) = []"
      "filter isLabel (findHeadings unmarkedItems 0 []) = []"
    by (simp_all add: unmarked_headings eval_text)
  have r: "rangeBatch (findHeadings unmarkedItems 0 []) = []"
    by (simp add: rangeBatch_def buttonsFrom_def unmarked_headings eval_text)
  have e: "sync_ranges flakyService (rangeBatch (findHeadings unmarkedItems 0 [])) = Inl offline"
    by (simp add: flakyService_def)
  have s: "statusMessage (scanAndBuildUI flakyService emptyWorld) =
      js ''Error scanning document. See console.''"
    by (simp add: scan_unresolved[OF a refl c e])
  have n: "js ''Error scanning document. See console.'' \<noteq>
      js ''No prompts found (use '*' or '_' in headings).''"
    by (simp add: js_def)
  show ?thesis
    using a c d s n by (simp add: scan_unresolved[OF a refl c e] r emptyWorld_def)
qed

text \<open>
  Claim C6. When the paragraph fetch throws, or the range resolution that follows a
  fetch with at least one heading throws, the scan ends as failed: the status message
  is the error text, the error is logged to the console, and the container is empty, so
  none of the items prepared before the failure is shown.
\<close>

theorem service_failure_discards_scan:
  assumes "sync_paragraphs svc = Inl e \<or>
     (\<exists>items. sync_paragraphs svc = Inr items \<and> findHeadings items 0 [] \<noteq> [] \<and>
        sync_ranges svc (rangeBatch (findHeadings items 0 [])) = Inl e)"
  shows "statusMessage (scanAndBuildUI svc w) = js ''Error scanning document. See console.''
    \<and> container (scanAndBuildUI svc w) = []
    \<and> console (scanAndBuildUI svc w) =
        console w @ [ConsoleError (js ''Error in scanAndBuildUI:'') e]"
  using assms
proof (elim disjE exE conjE)
  assume "sync_paragraphs svc = Inl e"
  then show ?thesis by (simp add: scan_fetch_failed)
next
  fix items
  assume "sync_paragraphs svc = Inr items" and "findHeadings items 0 [] \<noteq> []"
    and "sync_ranges svc (rangeBatch (findHeadings items 0 [])) = Inl e"
  then show ?thesis by (simp add: scan_unresolved[OF _ refl])
qed

theorem service_failure_discards_scan_witness:
  "sync_paragraphs offlineService = Inl offline
   \<and> container (scanAndBuildUI offlineService emptyWorld) = []
   \<and> statusMessage (scanAndBuildUI offlineService emptyWorld) =
       js ''Error scanning document. See console.''
   \<and> sync_paragraphs droppedService = Inr exampleItems
   \<and> sync_ranges droppedService (rangeBatch (findHeadings exampleItems 0 [])) = Inl offline
   \<and> container (scanAndBuildUI droppedService emptyWorld) = []
   \<and> statusMessage (scanAndBuildUI droppedService emptyWorld) =
       js ''Error scanning document. See console.''
   \<and> console (scanAndBuildUI droppedService emptyWorld) =
       [ConsoleError (js ''Error in scanAndBuildUI:'') offline]"
proof -
  have a: "sync_paragraphs offlineService = Inl offline"
    by (simp add: offlineService_def)
  have b: "sync_paragraphs droppedService = Inr exampleItems"
    by (simp add: droppedService_def)
  have c: "findHeadings exampleItems 0 [] \<noteq> []"
    by (simp add: example_headings exampleHeadings_def)
  have d: "sync_ranges droppedService (rangeBatch (findHeadings exampleItems 0 [])) = Inl offline"
    by (simp add: droppedService_def)
  have "sync_paragraphs droppedService = Inl offline \<or>
     (\<exists>items. sync_paragraphs droppedService = Inr items \<and> findHeadings items 0 [] \<noteq> [] \<and>
        sync_ranges droppedService (rangeBatch (findHeadings items 0 [])) = Inl offline)"
    using b c d by simp
  from service_failure_discards_scan[OF this, of emptyWorld]
    service_failure_discards_scan[OF disjI1[OF a], of emptyWorld] a b d
  show ?thesis by (simp add: emptyWorld_def)
qed

text \<open>
  Claim C7. When a scan succeeds and the text loaded for the range of a Button heading
  is empty after trimming, the button is still built, at the place of its heading among
  the marked headings, with an empty text to copy; the scan ends with the empty status
  message and logs nothing. The emptiness shows only when the button is clicked: the
  copy action logs a warning, sets the warning status and does not call the clipboard.
\<close>

theorem empty_payload_button_is_kept:
  assumes "sync_paragraphs svc = Inr items" and "findHeadings items 0 [] = hs"
    and "sync_ranges svc (rangeBatch hs) = Inr loaded"
    and "i < length hs" and "isButton (hs ! i)"
    and "trim (loaded (contentRange hs i)) = []"
    and "w' = scanAndBuildUI svc w"
    and "pos = length (filter (\<lambda>h. isButton h \<or> isLabel h) (take i hs))"
  shows "pos < length (container w')
    \<and> directiveOf (heap w') (container w' ! pos) = Some (Button (displayText (hs ! i)) [])
    \<and> statusMessage w' = [] \<and> console w' = console w
    \<and> statusMessage (click writeText (container w' ! pos) w') =
        js ''Warning: No text found to copy.''
    \<and> clipboardWrites (click writeText (container w' ! pos) w') = clipboardWrites w
    \<and> last (console (click writeText (container w' ! pos) w')) =
        ConsoleWarn (js ''Text to copy is empty. (Was it empty in the doc?)'')"
proof -
  have ne: "hs \<noteq> []" using assms(4) by auto
  have m: "isButton (hs ! i) \<or> isLabel (hs ! i)" using assms(5) by simp
  note r = scan_resolved[OF assms(1,2) ne assms(3), of w]
  have marked: "markedFrom hs 0 \<noteq> []"
    using marked_position(1)[OF assms(4) m] by auto
  have st: "statusMessage w' = []" "console w' = console w"
      "clipboardWrites w' = clipboardWrites w"
    using marked by (simp_all add: assms(7) r)
  have d: "pos < length (container w')"
      "directiveOf (heap w') (container w' ! pos) = Some (Button (displayText (hs ! i)) [])"
    using scan_directive_at[OF assms(1,2,3,4) m, of w] assms(5,6)
    by (simp_all add: assms(7,8) directiveFor_def)
  obtain r where el: "container w' ! pos =
        ButtonEl (js ''ms-Button'') (displayText (hs ! i))
          \<lparr>item_type = TButton, item_text = displayText (hs ! i), data = Some r\<rparr>"
      and hp: "heap w' ! r = resolvedPrompt hs loaded i"
    using scan_button_at[OF assms(1,2,3,4,5), of w] unfolding assms(7,8) by blast
  have c: "click writeText (container w' ! pos) w' =
      copyTextToClipboard writeText [] (displayText (hs ! i)) w'"
    by (simp add: el hp resolvedPrompt_def assms(6))
  show ?thesis
    using d st copy_empty_text[of writeText "displayText (hs ! i)" w'] by (simp add: c)
qed

theorem empty_payload_button_is_kept_witness:
  "sync_paragraphs emptyBodyService = Inr emptyBodyItems
   \<and> findHeadings emptyBodyItems 0 [] = emptyBodyHeadings
   \<and> isButton (emptyBodyHeadings ! 0)
   \<and> trim (emptyBodyText (contentRange emptyBodyHeadings 0)) = []
   \<and> directiveOf (heap (scanAndBuildUI emptyBodyService emptyWorld))
        (container (scanAndBuildUI emptyBodyService emptyWorld) ! 0) =
       Some (Button (js ''Empty'') [])
   \<and> statusMessage (click clipboardOk
         (container (scanAndBuildUI emptyBodyService emptyWorld) ! 0)
         (scanAndBuildUI emptyBodyService emptyWorld)) =
       js ''Warning: No text found to copy.''
   \<and> clipboardWrites (click clipboardOk
         (container (scanAndBuildUI emptyBodyService emptyWorld) ! 0)
         (scanAndBuildUI emptyBodyService emptyWorld)) = []"
proof -
  have a: "sync_paragraphs emptyBodyService = Inr emptyBodyItems"
    by (simp add: emptyBodyService_def)
  have b: "sync_ranges emptyBodyService (rangeBatch emptyBodyHeadings) = Inr emptyBodyText"
    by (simp add: emptyBodyService_def)
  have n: "0 < length emptyBodyHeadings"
    by (simp add: emptyBodyHeadings_def)
  have t: "trim (emptyBodyText (contentRange emptyBodyHeadings 0)) = []"
    by (simp add: contentRange_def at_def emptyBodyText_def emptyBodyHeadings_def trim_def)
  have p: "length (filter (\<lambda>h. isButton h \<or> isLabel h) (take 0 emptyBodyHeadings)) = 0"
    by simp
  have x: "displayText (emptyBodyHeadings ! 0) = js ''Empty''"
    by (simp add: emptyBodyHeadings_def eval_text)
  from empty_payload_button_is_kept[OF a emptyBody_headings b n emptyBody_button0 t refl p[symmetric],
      of emptyWorld clipboardOk]
  show ?thesis
    using a emptyBody_headings emptyBody_button0 t by (simp add: x emptyWorld_def)
qed

text \<open>
  Claim C8. On a successful scan the text of every directive is whitespace-normalised.
  For a Button heading the trimmed heading text is \<open>*\<close> followed by a rest, the label of
  the button is that rest trimmed, and the text to copy is the loaded range text
  trimmed. For a Label heading the trimmed heading text is \<open>_\<close> followed by a rest and
  the label text is that rest trimmed. Trimming removes a run of whitespace at each end
  and leaves a text that neither starts nor ends with whitespace.
\<close>

theorem emitted_text_is_trimmed:
  assumes "sync_paragraphs svc = Inr items" and "findHeadings items 0 [] = hs"
    and "sync_ranges svc (rangeBatch hs) = Inr loaded"
    and "i < length hs"
    and "w' = scanAndBuildUI svc w"
    and "pos = length (filter (\<lambda>h. isButton h \<or> isLabel h) (take i hs))"
  shows "(isButton (hs ! i) \<longrightarrow>
            (\<exists>rest. trim (h_text (hs ! i)) = 0x2A # rest
               \<and> directiveOf (heap w') (container w' ! pos) =
                   Some (Button (trim rest) (trim (loaded (contentRange hs i))))))
    \<and> (isLabel (hs ! i) \<longrightarrow>
            (\<exists>rest. trim (h_text (hs ! i)) = 0x5F # rest
               \<and> directiveOf (heap w') (container w' ! pos) = Some (Label (trim rest))))
    \<and> (\<exists>a b. s = a @ trim s @ b \<and> list_all isWhiteSpace a \<and> list_all isWhiteSpace b)
    \<and> (trim s = [] \<or> \<not> isWhiteSpace (hd (trim s)) \<and> \<not> isWhiteSpace (last (trim s)))"
proof (intro conjI impI)
  assume b: "isButton (hs ! i)"
  then have m: "isButton (hs ! i) \<or> isLabel (hs ! i)" by simp
  from button_marker[OF b] obtain rest
    where "trim (h_text (hs ! i)) = 0x2A # rest" and "displayText (hs ! i) = trim rest"
    by blast
  then show "\<exists>rest. trim (h_text (hs ! i)) = 0x2A # rest
      \<and> directiveOf (heap w') (container w' ! pos) =
          Some (Button (trim rest) (trim (loaded (contentRange hs i))))"
    using scan_directive_at(2)[OF assms(1,2,3,4) m, of w] b
    by (simp add: assms(5,6) directiveFor_def)
next
  assume l: "isLabel (hs ! i)"
  then have m: "isButton (hs ! i) \<or> isLabel (hs ! i)" by simp
  have nb: "\<not> isButton (hs ! i)" using l button_not_label by blast
  from label_marker[OF l] obtain rest
    where "trim (h_text (hs ! i)) = 0x5F # rest" and "displayText (hs ! i) = trim rest"
    by blast
  then show "\<exists>rest. trim (h_text (hs ! i)) = 0x5F # rest
      \<and> directiveOf (heap w') (container w' ! pos) = Some (Label (trim rest))"
    using scan_directive_at(2)[OF assms(1,2,3,4) m, of w] nb
    by (simp add: assms(5,6) directiveFor_def)
next
  show "\<exists>a b. s = a @ trim s @ b \<and> list_all isWhiteSpace a \<and> list_all isWhiteSpace b"
    by (rule trim_decompose)
next
  show "trim s = [] \<or> \<not> isWhiteSpace (hd (trim s)) \<and> \<not> isWhiteSpace (last (trim s))"
    using trim_edges[of s] by blast
qed

theorem emitted_text_is_trimmed_witness:
  "sync_paragraphs exampleService = Inr exampleItems
   \<and> findHeadings exampleItems 0 [] = exampleHeadings
   \<and> sync_ranges exampleService (rangeBatch exampleHeadings) = Inr exampleText
   \<and> isButton (exampleHeadings ! 1) \<and> isLabel (exampleHeadings ! 2)
   \<and> exampleText (contentRange exampleHeadings 1) = 0x000D # js ''body text A'' @ [0x000D]
   \<and> directiveOf (heap (scanAndBuildUI exampleService emptyWorld))
        (container (scanAndBuildUI exampleService emptyWorld) ! 0) =
       Some (Button (js ''Explain'') (js ''body text A''))
   \<and> directiveOf (heap (scanAndBuildUI exampleService emptyWorld))
        (container (scanAndBuildUI exampleService emptyWorld) ! 1) =
       Some (Label (js ''Section''))
   \<and> trim (js '' *Explain '') = js ''*Explain''
   \<and> \<not> isWhiteSpace (hd (trim (js '' *Explain '')))
   \<and> \<not> isWhiteSpace (last (trim (js '' *Explain '')))"
proof -
  have a: "sync_paragraphs exampleService = Inr exampleItems"
    by (simp add: exampleService_def)
  have b: "sync_ranges exampleService (rangeBatch exampleHeadings) = Inr exampleText"
    by (simp add: exampleService_def)
  have n1: "Suc 0 < length exampleHeadings" and n2: "2 < length exampleHeadings"
    by (simp_all add: exampleHeadings_def)
  have b1: "isButton (exampleHeadings ! Suc 0)" and b2: "isLabel (exampleHeadings ! 2)"
    by (simp_all add: exampleHeadings_def eval_text)
  have p1: "0 = length (filter (\<lambda>h. isButton h \<or> isLabel h) (take (Suc 0) exampleHeadings))"
    and p2: "Suc 0 = length (filter (\<lambda>h. isButton h \<or> isLabel h) (take 2 exampleHeadings))"
    by (simp_all add: exampleHeadings_def eval_text)
  have t1: "trim (h_text (exampleHeadings ! Suc 0)) = js ''*Explain''"
    and t2: "trim (h_text (exampleHeadings ! 2)) = js ''_Section''"
    and t3: "trim (js ''Explain'') = js ''Explain''"
    and t4: "trim (js ''Section'') = js ''Section''"
    and t5: "trim (js '' *Explain '') = js ''*Explain''"
    by (simp_all add: exampleHeadings_def eval_text)
  have x: "exampleText (contentRange exampleHeadings (Suc 0)) =
      0x000D # js ''body text A'' @ [0x000D]"
    by (simp add: contentRange_def at_def exampleText_def exampleHeadings_def)
  have y: "trim (0x000D # js ''body text A'' @ [0x000D]) = js ''body text A''"
    by (simp add: eval_text)
  have e: "js ''*Explain'' = 0x2A # js ''Explain''" "js ''_Section'' = 0x5F # js ''Section''"
    by (simp_all add: js_def)
  have w: "trim (js '' *Explain '') \<noteq> []"
    by (simp add: t5) (simp add: js_def)
  from emitted_text_is_trimmed[OF a example_headings b n1 refl p1, of emptyWorld "js '' *Explain ''"]
    emitted_text_is_trimmed[OF a example_headings b n2 refl p2, of emptyWorld "js '' *Explain ''"]
  show ?thesis
    using a b b1 b2 example_headings w
    by (auto simp: t1 t2 t3 t4 t5 x y e)
qed

text \<open>
  Claim C9. When the paragraph fetch succeeds and finds at least one heading but no
  Button heading, the second synchronisation is still made, with an empty batch: the
  scan makes two round trips. When that second call succeeds, every element built is a
  label heading.
\<close>

theorem empty_batch_still_synchronised:
  assumes "sync_paragraphs svc = Inr items" and "findHeadings items 0 [] = hs"
    and "hs \<noteq> []" and "\<forall>h\<in>set hs. \<not> isButton h"
  shows "syncs (scanAndBuildUI svc w) = syncs w @ [FetchParagraphs, ResolveRanges []]
    \<and> (\<forall>loaded. sync_ranges svc [] = Inr loaded \<longrightarrow>
         container (scanAndBuildUI svc w) =
           map (\<lambda>h. H3 (js ''ms-font-l'') (displayText h)) (filter isLabel hs))"
proof -
  have b: "buttonsFrom hs 0 = []"
    using assms(4) by (simp add: buttonsFrom_def filter_empty_conv)
  then have r: "rangeBatch hs = []"
    by (simp add: rangeBatch_def)
  have m: "markedFrom hs 0 = filter (\<lambda>k. isLabel (hs ! k)) [0..<length hs]"
    unfolding markedFrom_def using assms(4) by (intro filter_cong) simp_all
  have e: "map (elementOf hs n) (markedFrom hs 0) =
      map (\<lambda>h. H3 (js ''ms-font-l'') (displayText h)) (filter isLabel hs)" for n
  proof -
    have "map (elementOf hs n) (markedFrom hs 0) =
        map (\<lambda>k. H3 (js ''ms-font-l'') (displayText (hs ! k))) (markedFrom hs 0)"
      using assms(4)
      by (intro map_cong)
         (simp_all add: markedFrom_def elementOf_def itemOf_def elementOfItem_def)
    also have "\<dots> = map (\<lambda>h. H3 (js ''ms-font-l'') (displayText h))
        (map (nth hs) (filter (\<lambda>k. isLabel (hs ! k)) [0..<length hs]))"
      by (simp add: m o_def)
    also have "map (nth hs) (filter (\<lambda>k. isLabel (hs ! k)) [0..<length hs]) =
        filter isLabel (map (nth hs) [0..<length hs])"
      by (simp add: filter_map o_def)
    finally show ?thesis by (simp add: map_nth)
  qed
  show ?thesis
    using scan_syncs[OF assms(1,2,3), of w] scan_resolved[OF assms(1,2,3), of _ w]
    by (simp add: r e)
qed

theorem empty_batch_still_synchronised_witness:
  "sync_paragraphs labelService = Inr labelItems
   \<and> findHeadings labelItems 0 [] \<noteq> []
   \<and> list_all (\<lambda>h. \<not> isButton h) (findHeadings labelItems 0 [])
   \<and> syncs (scanAndBuildUI labelService emptyWorld) = [FetchParagraphs, ResolveRanges []]
   \<and> container (scanAndBuildUI labelService emptyWorld) =
       [H3 (js ''ms-font-l'') (js ''Section'')]"
proof -
  have a: "sync_paragraphs labelService = Inr labelItems"
    by (simp add: labelService_def)
  have c: "findHeadings labelItems 0 [] \<noteq> []"
    by (simp add: label_headings)
  have d: "\<forall>h\<in>set (findHeadings labelItems 0 []). \<not> isButton h"
    by (simp add: label_headings isButton_def startsWith_def trim_def isWhiteSpace_def js_def)
  have e: "sync_ranges labelService [] = Inr (\<lambda>r. [])"
    by (simp add: labelService_def)
  show ?thesis
    using a c d e empty_batch_still_synchronised[OF a refl c d, of emptyWorld]
    by (simp add: list_all_iff emptyWorld_def label_headings isLabel_def displayText_def
        startsWith_def trim_def substring_def isWhiteSpace_def js_def)
qed

text \<open>
  Claim C10. On a successful scan a heading whose trimmed text is the marker alone still
  gives a directive at its place among the marked headings: for \<open>*\<close> a Button with an
  empty label, whose range is in the batch sent to the service and whose text to copy is
  the loaded text trimmed; for \<open>_\<close> a Label with an empty text.
\<close>

theorem bare_marker_heading_is_kept:
  assumes "sync_paragraphs svc = Inr items" and "findHeadings items 0 [] = hs"
    and "sync_ranges svc (rangeBatch hs) = Inr loaded"
    and "i < length hs"
    and "w' = scanAndBuildUI svc w"
    and "pos = length (filter (\<lambda>h. isButton h \<or> isLabel h) (take i hs))"
  shows "(trim (h_text (hs ! i)) = js ''*'' \<longrightarrow>
            pos < length (container w')
          \<and> directiveOf (heap w') (container w' ! pos) =
              Some (Button [] (trim (loaded (contentRange hs i))))
          \<and> (\<exists>batch. last (syncs w') = ResolveRanges batch \<and> contentRange hs i \<in> set batch))
    \<and> (trim (h_text (hs ! i)) = js ''_'' \<longrightarrow>
            pos < length (container w')
          \<and> directiveOf (heap w') (container w' ! pos) = Some (Label []))"
proof (intro conjI impI)
  have ne: "hs \<noteq> []" using assms(4) by auto
  assume t: "trim (h_text (hs ! i)) = js ''*''"
  then have b: "isButton (hs ! i)" by (simp add: isButton_def startsWith_def js_def)
  then have m: "isButton (hs ! i) \<or> isLabel (hs ! i)" by simp
  have d: "displayText (hs ! i) = []"
    by (simp add: displayText_def t) (simp add: eval_text)
  show "pos < length (container w')"
    using scan_directive_at(1)[OF assms(1,2,3,4) m, of w] by (simp add: assms(5,6))
  show "directiveOf (heap w') (container w' ! pos) =
      Some (Button [] (trim (loaded (contentRange hs i))))"
    using scan_directive_at(2)[OF assms(1,2,3,4) m, of w] b
    by (simp add: assms(5,6) directiveFor_def d)
  have "contentRange hs i \<in> set (rangeBatch hs)"
    using assms(4) b by (simp add: rangeBatch_def buttonsFrom_def)
  then show "\<exists>batch. last (syncs w') = ResolveRanges batch \<and> contentRange hs i \<in> set batch"
    using scan_syncs[OF assms(1,2) ne, of w] by (simp add: assms(5))
next
  assume t: "trim (h_text (hs ! i)) = js ''_''"
  then have l: "isLabel (hs ! i)" by (simp add: isLabel_def startsWith_def js_def)
  then have m: "isButton (hs ! i) \<or> isLabel (hs ! i)" by simp
  have nb: "\<not> isButton (hs ! i)" using l button_not_label by blast
  have d: "displayText (hs ! i) = []"
    by (simp add: displayText_def t) (simp add: eval_text)
  show "pos < length (container w')"
    using scan_directive_at(1)[OF assms(1,2,3,4) m, of w] by (simp add: assms(5,6))
  show "directiveOf (heap w') (container w' ! pos) = Some (Label [])"
    using scan_directive_at(2)[OF assms(1,2,3,4) m, of w] nb
    by (simp add: assms(5,6) directiveFor_def d)
qed

theorem bare_marker_heading_is_kept_witness:
  "sync_paragraphs bareService = Inr bareItems
   \<and> findHeadings bareItems 0 [] = bareHeadings
   \<and> sync_ranges bareService (rangeBatch bareHeadings) = Inr bareText
   \<and> trim (h_text (bareHeadings ! 0)) = js ''*''
   \<and> trim (h_text (bareHeadings ! 1)) = js ''_''
   \<and> directiveOf (heap (scanAndBuildUI bareService emptyWorld))
        (container (scanAndBuildUI bareService emptyWorld) ! 0) =
       Some (Button [] (js ''payload''))
   \<and> directiveOf (heap (scanAndBuildUI bareService emptyWorld))
        (container (scanAndBuildUI bareService emptyWorld) ! 1) = Some (Label [])
   \<and> length (container (scanAndBuildUI bareService emptyWorld)) = 2"
proof -
  have a: "sync_paragraphs bareService = Inr bareItems"
    by (simp add: bareService_def)
  have b: "sync_ranges bareService (rangeBatch bareHeadings) = Inr bareText"
    by (simp add: bareService_def)
  have n0: "0 < length bareHeadings" and n1: "Suc 0 < length bareHeadings"
    by (simp_all add: bareHeadings_def)
  have t0: "trim (h_text (bareHeadings ! 0)) = js ''*''"
    and t1: "trim (h_text (bareHeadings ! Suc 0)) = js ''_''"
    by (simp_all add: bareHeadings_def eval_text)
  have p0: "0 = length (filter (\<lambda>h. isButton h \<or> isLabel h) (take 0 bareHeadings))"
    and p1: "Suc 0 = length (filter (\<lambda>h. isButton h \<or> isLabel h) (take (Suc 0) bareHeadings))"
    by (simp_all add: bareHeadings_def eval_text)
  have x: "trim (bareText (contentRange bareHeadings 0)) = js ''payload''"
    by (simp add: contentRange_def at_def bareText_def bareHeadings_def eval_text)
  have len: "length (container (scanAndBuildUI bareService emptyWorld)) = 2"
    using scan_resolved[OF a bare_headings _ b, of emptyWorld]
    by (simp add: bareHeadings_def markedFrom_def eval_text upt_rec)
  from bare_marker_heading_is_kept[OF a bare_headings b n0 refl p0, of emptyWorld]
    bare_marker_heading_is_kept[OF a bare_headings b n1 refl p1, of emptyWorld]
  show ?thesis
    using a b bare_headings t0 t1 len by (simp add: x)
qed

end
